theory Spec2Isabelle
  imports Main "HOL-Library.Word"
begin

unbundle bit_operations_syntax

section \<open>Python values, errors and slices\<close>

text \<open>
  Python text (\<open>str\<close>) is modelled as \<open>string\<close>: the list of the bytes of its UTF-8
  encoding. Python integers are unbounded, hence \<open>int\<close>. The values that the loosely typed
  dictionaries of the program hold (chunk metadata, point payloads, chat messages) are of
  type \<open>pyval\<close>.
\<close>

datatype pyval = PInt int | PStr string | PNone

datatype py_error =
    ValueError string
  | KeyError string
  | IndexError string
  | ZeroDivisionError string
  | RemoteError string

type_synonym pydict = "string \<rightharpoonup> pyval"

text \<open>
  A slice \<open>xs[lo:hi]\<close>: a negative bound counts from the end, and both bounds are clamped
  to the list.
\<close>

definition slice_bound :: "nat \<Rightarrow> int \<Rightarrow> nat" where
  "slice_bound n i = (if i < 0 then nat (max 0 (int n + i)) else min n (nat i))"

definition py_slice :: "'a list \<Rightarrow> int \<Rightarrow> int \<Rightarrow> 'a list" where
  "py_slice xs lo hi =
     (let a = slice_bound (length xs) lo; b = slice_bound (length xs) hi
      in take (b - a) (drop a xs))"

text \<open>\<open>xs[-k:]\<close> and \<open>xs[:k]\<close> for a positive \<open>k\<close>: the last and the first \<open>k\<close> items.\<close>

definition last_tokens :: "int \<Rightarrow> 'a list \<Rightarrow> 'a list" where
  "last_tokens k xs = drop (slice_bound (length xs) (- k)) xs"

definition first_tokens :: "int \<Rightarrow> 'a list \<Rightarrow> 'a list" where
  "first_tokens k xs = take (slice_bound (length xs) k) xs"

section \<open>Text formatting\<close>

text \<open>\<open>str(n)\<close> for an integer: decimal digits, with a minus sign for a negative number.\<close>

definition digit_char :: "nat \<Rightarrow> char" where
  "digit_char d = ''0123456789'' ! d"

fun str_nat :: "nat \<Rightarrow> string" where
  "str_nat n = (if n < 10 then [digit_char n] else str_nat (n div 10) @ [digit_char (n mod 10)])"

declare str_nat.simps [simp del]

definition str_int :: "int \<Rightarrow> string" where
  "str_int i = (if i < 0 then CHR ''-'' # str_nat (nat (- i)) else str_nat (nat i))"

text \<open>What an f-string substitutes for a value: \<open>str(v)\<close>.\<close>

fun py_str :: "pyval \<Rightarrow> string" where
  "py_str (PInt i) = str_int i"
| "py_str (PStr s) = s"
| "py_str PNone = ''None''"

text \<open>\<open>d.get(key, default)\<close>.\<close>

definition py_get :: "pydict \<Rightarrow> string \<Rightarrow> pyval \<Rightarrow> pyval" where
  "py_get d k dflt = (case d k of None \<Rightarrow> dflt | Some v \<Rightarrow> v)"

text \<open>\<open>sep.join(parts)\<close>.\<close>

fun py_join :: "string \<Rightarrow> string list \<Rightarrow> string" where
  "py_join sep [] = []"
| "py_join sep [p] = p"
| "py_join sep (p # q # ps) = p @ sep @ py_join sep (q # ps)"

definition newline :: char where
  "newline = CHR 0x0A"

section \<open>Hash functions of the Python library\<close>

text \<open>
  \<open>hashlib.sha256\<close>, \<open>hashlib.sha1\<close> and \<open>uuid.uuid5\<close> belong to the standard library,
  not to the program. They are written out here after FIPS 180-4 and RFC 4122, so that
  the identifiers the program derives are concrete values.
\<close>

type_synonym byte = "8 word"
type_synonym u32 = "32 word"

definition encode_utf8 :: "string \<Rightarrow> byte list" where
  "encode_utf8 s = map (\<lambda>c. of_nat (of_char c)) s"

definition rotl32 :: "nat \<Rightarrow> u32 \<Rightarrow> u32" where
  "rotl32 n w = push_bit n w OR drop_bit (32 - n) w"

definition rotr32 :: "nat \<Rightarrow> u32 \<Rightarrow> u32" where
  "rotr32 n w = drop_bit n w OR push_bit (32 - n) w"

definition length_bytes :: "nat \<Rightarrow> byte list" where
  "length_bytes n = map (\<lambda>i. ucast (drop_bit (8 * (7 - i)) (of_nat n :: 64 word))) [0..<8]"

definition md_pad :: "byte list \<Rightarrow> byte list" where
  "md_pad m =
     m @ [0x80] @ replicate ((119 - length m mod 64) mod 64) 0 @ length_bytes (8 * length m)"

fun be_word :: "byte list \<Rightarrow> u32" where
  "be_word [] = 0"
| "be_word (b # bs) = push_bit (8 * length bs) (ucast b) OR be_word bs"

fun be_words :: "byte list \<Rightarrow> u32 list" where
  "be_words (a # b # c # d # bs) = be_word [a, b, c, d] # be_words bs"
| "be_words _ = []"

fun blocks :: "u32 list \<Rightarrow> u32 list list" where
  "blocks [] = []"
| "blocks ws = take 16 ws # blocks (drop 16 ws)"

definition word_bytes :: "u32 \<Rightarrow> byte list" where
  "word_bytes w = [ucast (drop_bit 24 w), ucast (drop_bit 16 w), ucast (drop_bit 8 w), ucast w]"

definition hex_digit :: "nat \<Rightarrow> char" where
  "hex_digit n = ''0123456789abcdef'' ! n"

definition hex_byte :: "byte \<Rightarrow> string" where
  "hex_byte b = [hex_digit (unat b div 16), hex_digit (unat b mod 16)]"

definition hex_string :: "byte list \<Rightarrow> string" where
  "hex_string bs = concat (map hex_byte bs)"

subsection \<open>SHA-1\<close>

fun sha1_schedule :: "nat \<Rightarrow> u32 list \<Rightarrow> u32 list" where
  "sha1_schedule 0 w = w"
| "sha1_schedule (Suc n) w =
     sha1_schedule n (w @ [rotl32 1 (w ! (length w - 3) XOR w ! (length w - 8)
        XOR w ! (length w - 14) XOR w ! (length w - 16))])"

definition sha1_f :: "nat \<Rightarrow> u32 \<Rightarrow> u32 \<Rightarrow> u32 \<Rightarrow> u32" where
  "sha1_f t b c d =
     (if t < 20 then (b AND c) OR (NOT b AND d)
      else if t < 40 then b XOR c XOR d
      else if t < 60 then (b AND c) OR (b AND d) OR (c AND d)
      else b XOR c XOR d)"

definition sha1_k :: "nat \<Rightarrow> u32" where
  "sha1_k t = (if t < 20 then 0x5A827999 else if t < 40 then 0x6ED9EBA1
     else if t < 60 then 0x8F1BBCDC else 0xCA62C1D6)"

type_synonym sha1_state = "u32 \<times> u32 \<times> u32 \<times> u32 \<times> u32"

fun sha1_round :: "sha1_state \<Rightarrow> nat \<times> u32 \<Rightarrow> sha1_state" where
  "sha1_round (a, b, c, d, e) (t, w) =
     (rotl32 5 a + sha1_f t b c d + e + sha1_k t + w, a, rotl32 30 b, c, d)"

fun sha1_block :: "sha1_state \<Rightarrow> u32 list \<Rightarrow> sha1_state" where
  "sha1_block (h0, h1, h2, h3, h4) blk =
     (case foldl sha1_round (h0, h1, h2, h3, h4) (zip [0..<80] (sha1_schedule 64 blk)) of
        (a, b, c, d, e) \<Rightarrow> (h0 + a, h1 + b, h2 + c, h3 + d, h4 + e))"

definition sha1 :: "byte list \<Rightarrow> byte list" where
  "sha1 m =
     (case foldl sha1_block (0x67452301, 0xEFCDAB89, 0x98BADCFE, 0x10325476, 0xC3D2E1F0)
             (blocks (be_words (md_pad m))) of
        (h0, h1, h2, h3, h4) \<Rightarrow> concat (map word_bytes [h0, h1, h2, h3, h4]))"

subsection \<open>SHA-256\<close>

definition sha256_k :: "u32 list" where
  "sha256_k =
   [0x428A2F98, 0x71374491, 0xB5C0FBCF, 0xE9B5DBA5, 0x3956C25B, 0x59F111F1, 0x923F82A4, 0xAB1C5ED5,
    0xD807AA98, 0x12835B01, 0x243185BE, 0x550C7DC3, 0x72BE5D74, 0x80DEB1FE, 0x9BDC06A7, 0xC19BF174,
    0xE49B69C1, 0xEFBE4786, 0x0FC19DC6, 0x240CA1CC, 0x2DE92C6F, 0x4A7484AA, 0x5CB0A9DC, 0x76F988DA,
    0x983E5152, 0xA831C66D, 0xB00327C8, 0xBF597FC7, 0xC6E00BF3, 0xD5A79147, 0x06CA6351, 0x14292967,
    0x27B70A85, 0x2E1B2138, 0x4D2C6DFC, 0x53380D13, 0x650A7354, 0x766A0ABB, 0x81C2C92E, 0x92722C85,
    0xA2BFE8A1, 0xA81A664B, 0xC24B8B70, 0xC76C51A3, 0xD192E819, 0xD6990624, 0xF40E3585, 0x106AA070,
    0x19A4C116, 0x1E376C08, 0x2748774C, 0x34B0BCB5, 0x391C0CB3, 0x4ED8AA4A, 0x5B9CCA4F, 0x682E6FF3,
    0x748F82EE, 0x78A5636F, 0x84C87814, 0x8CC70208, 0x90BEFFFA, 0xA4506CEB, 0xBEF9A3F7, 0xC67178F2]"

fun sha256_schedule :: "nat \<Rightarrow> u32 list \<Rightarrow> u32 list" where
  "sha256_schedule 0 w = w"
| "sha256_schedule (Suc n) w =
     (let w15 = w ! (length w - 15); w2 = w ! (length w - 2);
          s0 = rotr32 7 w15 XOR rotr32 18 w15 XOR drop_bit 3 w15;
          s1 = rotr32 17 w2 XOR rotr32 19 w2 XOR drop_bit 10 w2
      in sha256_schedule n (w @ [w ! (length w - 16) + s0 + w ! (length w - 7) + s1]))"

type_synonym sha256_state = "u32 \<times> u32 \<times> u32 \<times> u32 \<times> u32 \<times> u32 \<times> u32 \<times> u32"

fun sha256_round :: "sha256_state \<Rightarrow> u32 \<times> u32 \<Rightarrow> sha256_state" where
  "sha256_round (a, b, c, d, e, f, g, h) (k, w) =
     (let S1 = rotr32 6 e XOR rotr32 11 e XOR rotr32 25 e;
          ch = (e AND f) XOR (NOT e AND g);
          t1 = h + S1 + ch + k + w;
          S0 = rotr32 2 a XOR rotr32 13 a XOR rotr32 22 a;
          maj = (a AND b) XOR (a AND c) XOR (b AND c);
          t2 = S0 + maj
      in (t1 + t2, a, b, c, d + t1, e, f, g))"

fun sha256_block :: "sha256_state \<Rightarrow> u32 list \<Rightarrow> sha256_state" where
  "sha256_block (h0, h1, h2, h3, h4, h5, h6, h7) blk =
     (case foldl sha256_round (h0, h1, h2, h3, h4, h5, h6, h7)
             (zip sha256_k (sha256_schedule 48 blk)) of
        (a, b, c, d, e, f, g, h) \<Rightarrow>
          (h0 + a, h1 + b, h2 + c, h3 + d, h4 + e, h5 + f, h6 + g, h7 + h))"

definition sha256 :: "byte list \<Rightarrow> byte list" where
  "sha256 m =
     (case foldl sha256_block
             (0x6A09E667, 0xBB67AE85, 0x3C6EF372, 0xA54FF53A,
              0x510E527F, 0x9B05688C, 0x1F83D9AB, 0x5BE0CD19)
             (blocks (be_words (md_pad m))) of
        (h0, h1, h2, h3, h4, h5, h6, h7) \<Rightarrow>
          concat (map word_bytes [h0, h1, h2, h3, h4, h5, h6, h7]))"

text \<open>\<open>hashlib.sha256(data).hexdigest()\<close>.\<close>

definition sha256_hexdigest :: "byte list \<Rightarrow> string" where
  "sha256_hexdigest m = hex_string (sha256 m)"

subsection \<open>UUID version 5\<close>

definition NAMESPACE_URL :: "byte list" where
  "NAMESPACE_URL = [0x6b, 0xa7, 0xb8, 0x11, 0x9d, 0xad, 0x11, 0xd1,
                    0x80, 0xb4, 0x00, 0xc0, 0x4f, 0xd4, 0x30, 0xc8]"

text \<open>
  \<open>uuid.uuid5(namespace, name)\<close>: the first 16 bytes of the SHA-1 of the namespace
  followed by the name, with the version (5) and the variant bits set.
\<close>

definition uuid5 :: "byte list \<Rightarrow> string \<Rightarrow> byte list" where
  "uuid5 namespace name =
     (let h = take 16 (sha1 (namespace @ encode_utf8 name));
          h = h[6 := (h ! 6 AND 0x0f) OR 0x50];
          h = h[8 := (h ! 8 AND 0x3f) OR 0x80]
      in h)"

text \<open>\<open>str(u)\<close> for a UUID: 32 hexadecimal digits in groups of 8, 4, 4, 4 and 12.\<close>

definition uuid_str :: "byte list \<Rightarrow> string" where
  "uuid_str u =
     hex_string (take 4 u) @ ''-'' @ hex_string (take 2 (drop 4 u)) @ ''-'' @
     hex_string (take 2 (drop 6 u)) @ ''-'' @ hex_string (take 2 (drop 8 u)) @ ''-'' @
     hex_string (drop 10 u)"

section \<open>ingestion/app/pdf_parser.py\<close>

record Document =
  content :: string
  page_number :: int
  source :: string
  content_hash :: string

text \<open>
  \<open>Document.__post_init__\<close>: the hash is computed from the content only if the caller did
  not provide one (\<open>if not self.content_hash\<close>).
\<close>

definition post_init :: "Document \<Rightarrow> Document" where
  "post_init d =
     (if content_hash d = []
      then d\<lparr>content_hash := sha256_hexdigest (encode_utf8 (content d))\<rparr>
      else d)"

text \<open>
  The constructor \<open>Document(content, page_number, source, content_hash)\<close> that the
  dataclass generates; \<open>content_hash\<close> defaults to the empty string.
\<close>

definition new_Document :: "string \<Rightarrow> int \<Rightarrow> string \<Rightarrow> string \<Rightarrow> Document" where
  "new_Document c p s h =
     post_init \<lparr>content = c, page_number = p, source = s, content_hash = h\<rparr>"

text \<open>
  The loop of \<open>parse_pdf\<close> over \<open>enumerate(pages)\<close>. A page is the dictionary that the
  extraction library returns for it; \<open>strip\<close> (\<open>str.strip\<close>) is a parameter.
\<close>

fun parse_pages ::
  "(string \<Rightarrow> string) \<Rightarrow> string \<Rightarrow> int \<Rightarrow> (string \<rightharpoonup> string) list \<Rightarrow> Document list" where
  "parse_pages strip pdf_filename page_index [] = []"
| "parse_pages strip pdf_filename page_index (page_data # pages) =
     (let page_text = strip (case page_data ''text'' of None \<Rightarrow> [] | Some t \<Rightarrow> t) in
      if page_text = [] then parse_pages strip pdf_filename (page_index + 1) pages
      else new_Document page_text (page_index + 1) pdf_filename []
             # parse_pages strip pdf_filename (page_index + 1) pages)"

definition parse_pdf ::
  "(string \<Rightarrow> string) \<Rightarrow> string \<Rightarrow> (string \<rightharpoonup> string) list \<Rightarrow> Document list" where
  "parse_pdf strip pdf_filename pages = parse_pages strip pdf_filename 0 pages"

section \<open>ingestion/app/chunker.py\<close>

record Chunk =
  chunk_text :: string
  metadata :: pydict

text \<open>
  The body of \<open>for start in range(0, len(token_ids), step)\<close>, for a positive \<open>step\<close>.
  The result lists the emitted chunks of the page as pairs of \<open>chunk_index\<close> and token
  window, in the order of emission. A window of fewer than 20 tokens is skipped by
  \<open>continue\<close>; the \<open>break\<close> after a window that reaches the end of the tokens ends the loop.
\<close>

function window_loop :: "nat list \<Rightarrow> int \<Rightarrow> int \<Rightarrow> int \<Rightarrow> int \<Rightarrow> (int \<times> nat list) list" where
  "window_loop token_ids chunk_size step start chunk_index =
     (if step \<le> 0 \<or> int (length token_ids) \<le> start then []
      else
        let window = py_slice token_ids start (start + chunk_size) in
        if length window < 20
        then window_loop token_ids chunk_size step (start + step) chunk_index
        else (chunk_index, window) #
          (if start + chunk_size \<ge> int (length token_ids) then []
           else window_loop token_ids chunk_size step (start + step) (chunk_index + 1)))"
  by pat_completeness auto
termination
  by (relation "measure (\<lambda>(t, c, s, st, i). nat (int (length t) - st))") auto

declare window_loop.simps [simp del]

text \<open>
  The windows of one page. An empty token list is skipped before \<open>range\<close> is evaluated;
  \<open>range\<close> raises on a zero step and is empty on a negative one.
\<close>

definition page_windows :: "int \<Rightarrow> int \<Rightarrow> nat list \<Rightarrow> py_error + (int \<times> nat list) list" where
  "page_windows chunk_size chunk_overlap token_ids =
     (let step = chunk_size - chunk_overlap in
      if length token_ids = 0 then Inr []
      else if step = 0 then Inl (ValueError ''range() arg 3 must not be zero'')
      else Inr (window_loop token_ids chunk_size step 0 0))"

definition make_chunk :: "(nat list \<Rightarrow> string) \<Rightarrow> Document \<Rightarrow> int \<times> nat list \<Rightarrow> Chunk" where
  "make_chunk decode document iw =
     \<lparr>chunk_text = decode (snd iw),
      metadata = [''page_number'' \<mapsto> PInt (page_number document),
                  ''source'' \<mapsto> PStr (source document),
                  ''content_hash'' \<mapsto> PStr (content_hash document),
                  ''chunk_index'' \<mapsto> PInt (fst iw)]\<rparr>"

text \<open>
  The body of \<open>for document in documents\<close>: the chunks that one page contributes. The
  tokenizer (\<open>_ENCODING.encode\<close>, \<open>_ENCODING.decode\<close>) is a parameter.
\<close>

definition page_chunks ::
  "(string \<Rightarrow> nat list) \<Rightarrow> (nat list \<Rightarrow> string) \<Rightarrow> int \<Rightarrow> int \<Rightarrow> Document
     \<Rightarrow> py_error + Chunk list" where
  "page_chunks encode decode chunk_size chunk_overlap document =
     (case page_windows chunk_size chunk_overlap (encode (content document)) of
        Inl e \<Rightarrow> Inl e
      | Inr ws \<Rightarrow> Inr (map (make_chunk decode document) ws))"

text \<open>\<open>chunk_documents\<close>: an error in a page aborts the whole call.\<close>

fun chunk_documents ::
  "(string \<Rightarrow> nat list) \<Rightarrow> (nat list \<Rightarrow> string) \<Rightarrow> Document list \<Rightarrow> int \<Rightarrow> int
     \<Rightarrow> py_error + Chunk list" where
  "chunk_documents encode decode [] chunk_size chunk_overlap = Inr []"
| "chunk_documents encode decode (document # documents) chunk_size chunk_overlap =
     (case page_chunks encode decode chunk_size chunk_overlap document of
        Inl e \<Rightarrow> Inl e
      | Inr cs \<Rightarrow>
          (case chunk_documents encode decode documents chunk_size chunk_overlap of
             Inl e \<Rightarrow> Inl e
           | Inr rest \<Rightarrow> Inr (cs @ rest)))"

text \<open>The \<open>chunk_index\<close> entries of a chunk list, as the metadata carries them.\<close>

definition chunk_indices :: "Chunk list \<Rightarrow> pyval option list" where
  "chunk_indices cs = map (\<lambda>c. metadata c ''chunk_index'') cs"

section \<open>ingestion/app/embedder.py\<close>

text \<open>
  The embedding server is a parameter \<open>post\<close>: the answer to \<open>POST /embed\<close> with the given
  inputs, either an error (a failed request or an error status) or the list of vectors of
  the response body. The loop returns its result together with the requests it has
  issued, in order.
\<close>

function embed_batches ::
  "(string list \<Rightarrow> py_error + 'v list) \<Rightarrow> int \<Rightarrow> string list \<Rightarrow> int \<Rightarrow> 'v list
     \<Rightarrow> string list list \<Rightarrow> (py_error + 'v list) \<times> string list list" where
  "embed_batches post batch_size prefixed_texts batch_index all_embeddings requests =
     (if batch_size \<le> 0 \<or> int (length prefixed_texts) \<le> batch_index
      then (Inr all_embeddings, requests)
      else
        let batch = py_slice prefixed_texts batch_index (batch_index + batch_size) in
        case post batch of
          Inl e \<Rightarrow> (Inl e, requests @ [batch])
        | Inr batch_embeddings \<Rightarrow>
            embed_batches post batch_size prefixed_texts (batch_index + batch_size)
              (all_embeddings @ batch_embeddings) (requests @ [batch]))"
  by pat_completeness auto
termination
  by (relation "measure (\<lambda>(p, b, t, i, a, r). nat (int (length t) - i))") auto

declare embed_batches.simps [simp del]

text \<open>
  \<open>EmbeddingClient.embed_texts\<close>. The number of batches is computed first, for the log
  messages: \<open>(len(prefixed_texts) + batch_size - 1) // batch_size\<close>, which raises on a zero
  batch size.
\<close>

definition total_batches :: "int \<Rightarrow> string list \<Rightarrow> int" where
  "total_batches batch_size prefixed_texts =
     (int (length prefixed_texts) + batch_size - 1) div batch_size"

definition embed_texts ::
  "(string list \<Rightarrow> py_error + 'v list) \<Rightarrow> int \<Rightarrow> string list \<Rightarrow> string
     \<Rightarrow> (py_error + 'v list) \<times> string list list" where
  "embed_texts post batch_size texts prefix =
     (let prefixed_texts = map (\<lambda>t. prefix @ t) texts in
      if batch_size = 0 then (Inl (ZeroDivisionError ''integer division or modulo by zero''), [])
      else embed_batches post batch_size prefixed_texts 0 [] [])"

section \<open>ingestion/app/vector_store.py\<close>

record 'v PointStruct =
  point_id :: string
  vector :: 'v
  payload :: pydict

text \<open>
  The vector store, as the client sees it: the points of the collection by identifier,
  and the upsert requests it has received, in order. Whether the store accepts a request
  is a parameter; a refused request raises and changes no point.
\<close>

record 'v qdrant =
  points :: "string \<rightharpoonup> 'v \<times> pydict"
  upsert_requests :: "'v PointStruct list list"

definition store_point ::
  "'v PointStruct \<Rightarrow> (string \<rightharpoonup> 'v \<times> pydict) \<Rightarrow> (string \<rightharpoonup> 'v \<times> pydict)" where
  "store_point p m = m(point_id p \<mapsto> (vector p, payload p))"

definition client_upsert ::
  "('v PointStruct list \<Rightarrow> bool) \<Rightarrow> 'v PointStruct list \<Rightarrow> 'v qdrant
     \<Rightarrow> py_error option \<times> 'v qdrant" where
  "client_upsert accepts batch q =
     (let q' = q\<lparr>upsert_requests := upsert_requests q @ [batch]\<rparr> in
      if accepts batch then (None, q'\<lparr>points := fold store_point batch (points q')\<rparr>)
      else (Some (RemoteError ''upsert failed''), q'))"

text \<open>\<open>d[key]\<close>, which raises \<open>KeyError\<close> on a missing key.\<close>

definition py_item :: "pydict \<Rightarrow> string \<Rightarrow> py_error + pyval" where
  "py_item d k = (case d k of None \<Rightarrow> Inl (KeyError k) | Some v \<Rightarrow> Inr v)"

text \<open>The name that is hashed: \<open>f"{content_hash}_{chunk_index}"\<close>.\<close>

definition point_name :: "pyval \<Rightarrow> pyval \<Rightarrow> string" where
  "point_name h i = py_str h @ ''_'' @ py_str i"

definition chunk_point_id :: "Chunk \<Rightarrow> py_error + string" where
  "chunk_point_id chunk =
     (case py_item (metadata chunk) ''content_hash'' of
        Inl e \<Rightarrow> Inl e
      | Inr h \<Rightarrow>
          (case py_item (metadata chunk) ''chunk_index'' of
             Inl e \<Rightarrow> Inl e
           | Inr i \<Rightarrow> Inr (uuid_str (uuid5 NAMESPACE_URL (point_name h i)))))"

text \<open>The loop over \<open>zip(chunks, embeddings)\<close> that builds the points.\<close>

fun build_points :: "Chunk list \<Rightarrow> 'v list \<Rightarrow> py_error + 'v PointStruct list" where
  "build_points (chunk # chunks) (embedding # embeddings) =
     (case chunk_point_id chunk of
        Inl e \<Rightarrow> Inl e
      | Inr pid \<Rightarrow>
          (case build_points chunks embeddings of
             Inl e \<Rightarrow> Inl e
           | Inr ps \<Rightarrow>
               Inr (\<lparr>point_id = pid, vector = embedding,
                     payload = (metadata chunk)(''text'' \<mapsto> PStr (chunk_text chunk))\<rparr> # ps)))"
| "build_points _ _ = Inr []"

text \<open>The loop \<open>for i in range(0, len(points), batch_size)\<close> with \<open>batch_size = 100\<close>.\<close>

function upsert_batches ::
  "('v PointStruct list \<Rightarrow> bool) \<Rightarrow> 'v PointStruct list \<Rightarrow> int \<Rightarrow> 'v qdrant
     \<Rightarrow> py_error option \<times> 'v qdrant" where
  "upsert_batches accepts ps i q =
     (if int (length ps) \<le> i then (None, q)
      else
        case client_upsert accepts (py_slice ps i (i + 100)) q of
          (Some e, q') \<Rightarrow> (Some e, q')
        | (None, q') \<Rightarrow> upsert_batches accepts ps (i + 100) q')"
  by pat_completeness auto
termination
  by (relation "measure (\<lambda>(a, ps, i, q). nat (int (length ps) - i))") auto

declare upsert_batches.simps [simp del]

definition upsert_chunks ::
  "('v PointStruct list \<Rightarrow> bool) \<Rightarrow> Chunk list \<Rightarrow> 'v list \<Rightarrow> 'v qdrant
     \<Rightarrow> py_error option \<times> 'v qdrant" where
  "upsert_chunks accepts chunks embeddings q =
     (if length chunks \<noteq> length embeddings
      then (Some (ValueError (''Mismatch: '' @ str_int (int (length chunks)) @ '' chunks but '' @
              str_int (int (length embeddings)) @ '' embeddings'')), q)
      else
        case build_points chunks embeddings of
          Inl e \<Rightarrow> (Some e, q)
        | Inr ps \<Rightarrow> upsert_batches accepts ps 0 q)"

section \<open>chat-api/app/rag_pipeline.py\<close>

text \<open>A search result of the vector store (\<open>ScoredPoint\<close>): its payload and its score.\<close>

record 's ScoredPoint =
  result_payload :: pydict
  score :: 's

text \<open>A chat message is a dictionary with the keys \<open>role\<close> and \<open>content\<close>.\<close>

type_synonym message = pydict

definition new_message :: "pyval \<Rightarrow> pyval \<Rightarrow> message" where
  "new_message r c = [''role'' \<mapsto> r, ''content'' \<mapsto> c]"

definition system_prompt :: string where
  "system_prompt =
     ''You are a helpful assistant that answers questions based on the '' @
     ''provided context. Always cite which page numbers your answer comes '' @
     ''from. If the context doesn'' @ [CHR 0x27] @ ''t contain enough information to answer '' @
     ''the question, say so honestly. Do not make up information that is '' @
     ''not supported by the context.''"

text \<open>The loop \<open>for msg in history\<close>, which appends one message per entry.\<close>

fun history_messages :: "pydict list \<Rightarrow> message list" where
  "history_messages [] = []"
| "history_messages (msg # msgs) =
     new_message (py_get msg ''role'' (PStr ''user'')) (py_get msg ''content'' (PStr ''''))
       # history_messages msgs"

text \<open>The loop \<open>for i, chunk in enumerate(context_chunks, start=1)\<close>.\<close>

fun context_parts :: "int \<Rightarrow> 's ScoredPoint list \<Rightarrow> string list" where
  "context_parts i [] = []"
| "context_parts i (chunk # chunks) =
     (let page_num = py_get (result_payload chunk) ''page_number'' (PStr ''unknown'');
          chunk_text = py_get (result_payload chunk) ''text'' (PStr '''')
      in (''['' @ str_int i @ ''] (Page '' @ py_str page_num @ ''): '' @ py_str chunk_text)
           # context_parts (i + 1) chunks)"

definition user_message :: "string \<Rightarrow> string \<Rightarrow> string" where
  "user_message context_text question =
     ''Context:'' @ [newline] @ context_text @ [newline, newline] @
     ''Question: '' @ question @ [newline, newline] @
     ''Answer based on the context above. Cite page numbers.''"

definition build_prompt ::
  "string \<Rightarrow> 's ScoredPoint list \<Rightarrow> pydict list option \<Rightarrow> message list" where
  "build_prompt question context_chunks history =
     (let messages = [new_message (PStr ''system'') (PStr system_prompt)];
          messages = (case history of
                        None \<Rightarrow> messages
                      | Some h \<Rightarrow> if h = [] then messages else messages @ history_messages h);
          context_text = py_join [newline, newline] (context_parts 1 context_chunks)
      in messages @ [new_message (PStr ''user'') (PStr (user_message context_text question))])"

text \<open>
  The services behind the pipeline are parameters: the embedding server (\<open>POST /embed\<close>),
  the vector store (\<open>query_points\<close>), the generation server (the content of the first
  choice of \<open>POST /v1/chat/completions\<close>, or an error) and \<open>round(score, 4)\<close> on the
  floating-point scores. The configuration gives \<open>rag_top_k\<close> and \<open>vllm_model\<close>.
\<close>

record ('v, 's) RAGPipeline =
  post_embed :: "string list \<Rightarrow> py_error + 'v list"
  query_points :: "'v \<Rightarrow> int \<Rightarrow> py_error + 's ScoredPoint list"
  chat_completions :: "message list \<Rightarrow> py_error + string"
  round4 :: "'s \<Rightarrow> 's"
  rag_top_k :: int
  vllm_model :: string

record 's Source =
  source_text :: pyval
  source_page_number :: pyval
  source_name :: pyval
  source_score :: 's

definition embed_question :: "('v, 's) RAGPipeline \<Rightarrow> string \<Rightarrow> py_error + 'v" where
  "embed_question p question =
     (case post_embed p [''search_query: '' @ question] of
        Inl e \<Rightarrow> Inl e
      | Inr [] \<Rightarrow> Inl (IndexError ''list index out of range'')
      | Inr (embedding_vector # _) \<Rightarrow> Inr embedding_vector)"

definition search_qdrant ::
  "('v, 's) RAGPipeline \<Rightarrow> 'v \<Rightarrow> int \<Rightarrow> py_error + 's ScoredPoint list" where
  "search_qdrant p query_embedding top_k = query_points p query_embedding top_k"

definition generate_answer :: "('v, 's) RAGPipeline \<Rightarrow> message list \<Rightarrow> py_error + string" where
  "generate_answer p messages = chat_completions p messages"

definition make_source :: "('s \<Rightarrow> 's) \<Rightarrow> 's ScoredPoint \<Rightarrow> 's Source" where
  "make_source rnd result =
     \<lparr>source_text = py_get (result_payload result) ''text'' (PStr ''''),
      source_page_number = py_get (result_payload result) ''page_number'' (PInt 0),
      source_name = py_get (result_payload result) ''source'' (PStr ''unknown''),
      source_score = rnd (score result)\<rparr>"

definition query ::
  "('v, 's) RAGPipeline \<Rightarrow> string \<Rightarrow> pydict list option \<Rightarrow> py_error + string \<times> 's Source list" where
  "query p question history =
     (case embed_question p question of
        Inl e \<Rightarrow> Inl e
      | Inr query_embedding \<Rightarrow>
          (case search_qdrant p query_embedding (rag_top_k p) of
             Inl e \<Rightarrow> Inl e
           | Inr search_results \<Rightarrow>
               (case generate_answer p (build_prompt question search_results history) of
                  Inl e \<Rightarrow> Inl e
                | Inr answer \<Rightarrow> Inr (answer, map (make_source (round4 p)) search_results))))"

section \<open>chat-api/app/main.py\<close>

text \<open>
  A handler returns a response body or raises \<open>HTTPException(status_code, detail)\<close>. The
  global \<open>pipeline\<close> is \<open>None\<close> until the startup of the application has built it; the
  handlers take its current value as an argument.
\<close>

datatype 'a http_result = Response 'a | HTTPException int string

record ChatRequest =
  question :: string
  history :: "pydict list option"

record 's ChatResponse =
  answer :: string
  sources :: "'s Source list"
  model :: string
  chunks_retrieved :: int

text \<open>\<open>str(e)\<close> for an exception.\<close>

fun error_str :: "py_error \<Rightarrow> string" where
  "error_str (ValueError m) = m"
| "error_str (KeyError k) = [CHR 0x27] @ k @ [CHR 0x27]"
| "error_str (IndexError m) = m"
| "error_str (ZeroDivisionError m) = m"
| "error_str (RemoteError m) = m"

text \<open>\<open>GET /health\<close>: the handler does not read the global \<open>pipeline\<close>.\<close>

definition health :: "('v, 's) RAGPipeline option \<Rightarrow> pydict http_result" where
  "health pipeline = Response [''status'' \<mapsto> PStr ''healthy'']"

text \<open>\<open>POST /chat\<close>.\<close>

definition chat :: "('v, 's) RAGPipeline option \<Rightarrow> ChatRequest \<Rightarrow> 's ChatResponse http_result" where
  "chat pipeline request =
     (case pipeline of
        None \<Rightarrow>
          HTTPException 503 ''RAG pipeline not initialized. The server may still be starting up.''
      | Some p \<Rightarrow>
          (case query p (question request) (history request) of
             Inl e \<Rightarrow> HTTPException 500 (error_str e)
           | Inr (a, srcs) \<Rightarrow>
               Response \<lparr>answer = a, sources = srcs, model = vllm_model p,
                         chunks_retrieved = int (length srcs)\<rparr>))"

text \<open>
  A tokenizer with one token per byte, and two pages, for running the chunker on concrete
  inputs.
\<close>

definition byte_tokens :: "string \<Rightarrow> nat list" where
  "byte_tokens s = map of_char s"

definition byte_text :: "nat list \<Rightarrow> string" where
  "byte_text ts = map char_of ts"

definition fox_page :: Document where
  "fox_page = \<lparr>content = ''the quick brown fox jumps over the lazy dog, twice'',
     page_number = 1, source = ''fox.pdf'', content_hash = ''00''\<rparr>"

definition jug_page :: Document where
  "jug_page = \<lparr>content = ''pack my box with five dozen liquor jugs'',
     page_number = 2, source = ''fox.pdf'', content_hash = ''01''\<rparr>"

text \<open>The windows that a chunk size of 25 and an overlap of 5 give on these two pages.\<close>

definition fox_jug_windows :: "Document \<Rightarrow> (int \<times> nat list) list" where
  "fox_jug_windows d =
     (if page_number d = 1
      then [(0, byte_tokens ''the quick brown fox jumps''),
            (1, byte_tokens ''jumps over the lazy dog, '')]
      else [(0, byte_tokens ''pack my box with five doz'')])"

definition long_page :: Document where
  "long_page = \<lparr>content = replicate 1000 CHR ''a'',
     page_number = 1, source = ''long.pdf'', content_hash = ''00''\<rparr>"

text \<open>A content hash in hexadecimal digits, as \<open>hexdigest\<close> produces it.\<close>

definition is_hex :: "string \<Rightarrow> bool" where
  "is_hex h = list_all (\<lambda>c. c \<in> set ''0123456789abcdefABCDEF'') h"

definition plain_chunk :: "string \<Rightarrow> int \<Rightarrow> Chunk" where
  "plain_chunk h i = \<lparr>chunk_text = ''some text'',
     metadata = [''page_number'' \<mapsto> PInt 1, ''source'' \<mapsto> PStr ''fox.pdf'',
                 ''content_hash'' \<mapsto> PStr h, ''chunk_index'' \<mapsto> PInt i]\<rparr>"

definition empty_store :: "nat qdrant" where
  "empty_store = \<lparr>points = Map.empty, upsert_requests = []\<rparr>"

definition idle_pipeline :: "(nat, unit) RAGPipeline" where
  "idle_pipeline =
     \<lparr>post_embed = (\<lambda>inputs. Inr (map length inputs)),
      query_points = (\<lambda>v k. Inr []),
      chat_completions = (\<lambda>messages. Inr ''The context does not say.''),
      round4 = (\<lambda>s. s),
      rag_top_k = 5,
      vllm_model = ''llama''\<rparr>"

section \<open>Properties of the chunker\<close>

lemma py_slice_window:
  "0 \<le> s \<Longrightarrow> 0 \<le> c \<Longrightarrow> py_slice xs s (s + c) = take (nat c) (drop (nat s) xs)"
  by (auto simp: py_slice_def slice_bound_def Let_def min_def nat_add_distrib)

lemma window_loop_small:
  "0 \<le> s \<Longrightarrow> 0 \<le> c \<Longrightarrow> length (py_slice t s (s + c)) < 20 \<Longrightarrow> window_loop t c st s i = []"
proof (induction t c st s i rule: window_loop.induct)
  case (1 t c st s i)
  show ?case
  proof (cases "st \<le> 0 \<or> int (length t) \<le> s")
    case True
    then show ?thesis by (simp add: window_loop.simps)
  next
    case False
    have "length (py_slice t (s + st) (s + st + c)) \<le> length (py_slice t s (s + c))"
      using 1(3,4) False by (simp add: py_slice_window) linarith
    with 1 False show ?thesis
      by (subst window_loop.simps) (simp add: Let_def)
  qed
qed

lemma window_loop_head:
  assumes "0 \<le> s" "0 \<le> c" "window_loop t c st s i = x # xs"
  shows "x = (i, py_slice t s (s + c)) \<and> 20 \<le> length (py_slice t s (s + c))"
proof (cases "length (py_slice t s (s + c)) < 20")
  case True
  with assms window_loop_small show ?thesis by fastforce
next
  case False
  with assms(3) show ?thesis
    by (subst (asm) window_loop.simps) (auto simp: Let_def split: if_splits)
qed


lemma window_loop_overlap:
  "0 < ov \<Longrightarrow> ov < c \<Longrightarrow> st = c - ov \<Longrightarrow> 0 \<le> s \<Longrightarrow> Suc k < length (window_loop t c st s i) \<Longrightarrow>
     last_tokens ov (snd (window_loop t c st s i ! k)) =
       first_tokens ov (snd (window_loop t c st s i ! Suc k))
     \<and> length (last_tokens ov (snd (window_loop t c st s i ! k))) = nat ov"
proof (induction t c st s i arbitrary: k rule: window_loop.induct)
  case (1 t c st s i)
  let ?w = "py_slice t s (s + c)"
  note ov = \<open>0 < ov\<close> \<open>ov < c\<close> and st = \<open>st = c - ov\<close> and s0 = \<open>0 \<le> s\<close>
    and len = \<open>Suc k < length (window_loop t c st s i)\<close>
  have c0: "0 \<le> c" and st0: "0 < st" using ov st by auto
  from len have ne: "window_loop t c st s i \<noteq> []" by auto
  then have inr: "\<not> (st \<le> 0 \<or> int (length t) \<le> s)"
    by (subst (asm) window_loop.simps) (auto split: if_splits)
  have big: "\<not> length ?w < 20"
    using ne window_loop_small [OF s0 c0] by blast
  have unf: "window_loop t c st s i = (i, ?w) #
      (if int (length t) \<le> s + c then [] else window_loop t c st (s + st) (i + 1))"
    using inr big by (subst window_loop.simps) (simp add: Let_def)
  from len unf have more: "\<not> int (length t) \<le> s + c" by (auto split: if_splits)
  let ?rest = "window_loop t c st (s + st) (i + 1)"
  have unf': "window_loop t c st s i = (i, ?w) # ?rest" using unf more by simp
  show ?case
  proof (cases k)
    case 0
    from len unf' obtain y ys where rest: "?rest = y # ys"
      by (cases ?rest) auto
    have y: "y = (i + 1, py_slice t (s + st) (s + st + c))"
      using window_loop_head [OF _ c0 rest] s0 st0 by simp
    have w: "?w = take (nat c) (drop (nat s) t)"
      using py_slice_window [OF s0 c0] .
    have w': "py_slice t (s + st) (s + st + c) = take (nat c) (drop (nat (s + st)) t)"
      using py_slice_window [of "s + st" c t] s0 st0 c0 by simp
    have lw: "length ?w = nat c" using more s0 c0 by (simp add: w)
    have n1: "nat (s + st) + nat ov < length t" and n2: "nat ov \<le> nat c"
      using more s0 ov st by linarith+
    have lw': "nat ov \<le> length (py_slice t (s + st) (s + st + c))"
      unfolding w' using n1 n2 by simp
    have a: "last_tokens ov ?w = take (nat ov) (drop (nat (s + st)) t)"
    proof -
      have "last_tokens ov ?w = drop (nat (c - ov)) ?w"
        using lw ov by (simp add: last_tokens_def slice_bound_def nat_diff_distrib)
      also have "\<dots> = take (nat c - nat (c - ov)) (drop (nat (c - ov) + nat s) t)"
        by (simp add: w drop_take)
      also have "\<dots> = take (nat ov) (drop (nat (s + st)) t)"
        using ov s0 st by (simp add: nat_add_distrib nat_diff_distrib add.commute)
      finally show ?thesis .
    qed
    have b: "first_tokens ov (py_slice t (s + st) (s + st + c)) = take (nat ov) (drop (nat (s + st)) t)"
      using lw' ov n2 unfolding w' by (simp add: first_tokens_def slice_bound_def min_def)
    have la: "length (take (nat ov) (drop (nat (s + st)) t)) = nat ov"
      using n1 by simp
    show ?thesis using 0 unf' rest y a b la by simp
  next
    case (Suc j)
    have "Suc j < length ?rest" using len unf' Suc by simp
    moreover have "0 \<le> s + st" using s0 st0 by simp
    ultimately have "last_tokens ov (snd (?rest ! j)) = first_tokens ov (snd (?rest ! Suc j))
        \<and> length (last_tokens ov (snd (?rest ! j))) = nat ov"
      using 1(2) [OF inr refl big more ov st] by blast
    then have ih1: "last_tokens ov (snd (?rest ! j)) = first_tokens ov (snd (?rest ! Suc j))"
      and ih2: "length (last_tokens ov (snd (?rest ! j))) = nat ov" by blast+
    have nk: "window_loop t c st s i ! k = ?rest ! j"
      and nk': "window_loop t c st s i ! Suc k = ?rest ! Suc j"
      using Suc unf' by simp_all
    show ?thesis unfolding nk nk' using ih1 ih2 by blast
  qed
qed


lemma window_loop_indices:
  "map fst (window_loop t c st s i) = map (\<lambda>k. i + int k) [0..<length (window_loop t c st s i)]"
proof (induction t c st s i rule: window_loop.induct)
  case (1 t c st s i)
  let ?w = "py_slice t s (s + c)"
  show ?case
  proof (cases "st \<le> 0 \<or> int (length t) \<le> s")
    case True
    then show ?thesis by (simp add: window_loop.simps)
  next
    case out: False
    show ?thesis
    proof (cases "length ?w < 20")
      case True
      then have "window_loop t c st s i = window_loop t c st (s + st) i"
        using out by (subst window_loop.simps) (simp add: Let_def)
      then show ?thesis using 1(1) [OF out refl True] by simp
    next
      case big: False
      show ?thesis
      proof (cases "int (length t) \<le> s + c")
        case True
        then have "window_loop t c st s i = [(i, ?w)]"
          using out big by (subst window_loop.simps) (simp add: Let_def)
        then show ?thesis by simp
      next
        case False
        then have unf: "window_loop t c st s i = (i, ?w) # window_loop t c st (s + st) (i + 1)"
          using out big by (subst window_loop.simps) (simp add: Let_def)
        have ih: "map fst (window_loop t c st (s + st) (i + 1)) =
            map (\<lambda>k. i + 1 + int k) [0..<length (window_loop t c st (s + st) (i + 1))]"
          using 1(2) [OF out refl big] False by simp
        show ?thesis
          unfolding unf by (simp add: ih map_upt_Suc del: upt_Suc) 
      qed
    qed
  qed
qed

lemma window_loop_min_tokens:
  "iw \<in> set (window_loop t c st s i) \<Longrightarrow> 20 \<le> length (snd iw)"
proof (induction t c st s i rule: window_loop.induct)
  case (1 t c st s i)
  from 1(3) show ?case
    by (subst (asm) window_loop.simps)
      (use 1(1) [OF _ refl] 1(2) [OF _ refl] in \<open>auto simp: Let_def split: if_splits\<close>)
qed


lemma page_windows_loop:
  "chunk_overlap < chunk_size \<Longrightarrow>
   page_windows chunk_size chunk_overlap token_ids =
     Inr (window_loop token_ids chunk_size (chunk_size - chunk_overlap) 0 0)"
  by (simp add: page_windows_def Let_def window_loop.simps)

lemma page_windows_cases:
  "page_windows chunk_size chunk_overlap token_ids = Inr ws \<Longrightarrow>
   ws = [] \<or> ws = window_loop token_ids chunk_size (chunk_size - chunk_overlap) 0 0"
  by (auto simp: page_windows_def Let_def split: if_splits)

lemma chunk_documents_single:
  "chunk_documents encode decode [document] chunk_size chunk_overlap =
     page_chunks encode decode chunk_size chunk_overlap document"
  by (simp split: sum.splits)

text \<open>
  C1 (overlap coverage). With \<open>0 < chunk_overlap < chunk_size\<close>, let \<open>ws\<close> be the token
  windows that \<open>chunk_documents\<close> emits for a page, in order. Then the chunks of the page are
  built from \<open>ws\<close>, and for any two consecutive windows the last \<open>chunk_overlap\<close> tokens of
  the earlier one are the first \<open>chunk_overlap\<close> tokens of the later one (and there are
  exactly \<open>chunk_overlap\<close> of them).
\<close>

theorem overlap_coverage:
  assumes "0 < chunk_overlap" and "chunk_overlap < chunk_size"
    and "ws = window_loop (encode (content document)) chunk_size (chunk_size - chunk_overlap) 0 0"
    and "Suc k < length ws"
  shows "chunk_documents encode decode [document] chunk_size chunk_overlap =
           Inr (map (make_chunk decode document) ws)
       \<and> last_tokens chunk_overlap (snd (ws ! k)) = first_tokens chunk_overlap (snd (ws ! Suc k))
       \<and> length (last_tokens chunk_overlap (snd (ws ! k))) = nat chunk_overlap"
proof -
  have "page_chunks encode decode chunk_size chunk_overlap document =
      Inr (map (make_chunk decode document) ws)"
    using assms(2,3) by (simp add: page_chunks_def page_windows_loop)
  moreover have "last_tokens chunk_overlap (snd (ws ! k)) = first_tokens chunk_overlap (snd (ws ! Suc k))
       \<and> length (last_tokens chunk_overlap (snd (ws ! k))) = nat chunk_overlap"
    using window_loop_overlap [OF assms(1,2) refl, of 0 k "encode (content document)" 0]
      assms(4) unfolding assms(3) by blast
  ultimately show ?thesis unfolding chunk_documents_single by blast
qed

theorem overlap_coverage_witness:
  "(0::int) < 5 \<and> (5::int) < 25
   \<and> Suc 0 < length (window_loop (byte_tokens (content fox_page)) 25 (25 - 5) 0 0)
   \<and> last_tokens 5 (snd (window_loop (byte_tokens (content fox_page)) 25 (25 - 5) 0 0 ! 0)) =
       first_tokens 5 (snd (window_loop (byte_tokens (content fox_page)) 25 (25 - 5) 0 0 ! Suc 0))
   \<and> first_tokens 5 (snd (window_loop (byte_tokens (content fox_page)) 25 (25 - 5) 0 0 ! Suc 0)) =
       byte_tokens ''jumps''"
proof -
  have h: "Suc 0 < length (window_loop (byte_tokens (content fox_page)) 25 (25 - 5) 0 0)"
    by (simp add: window_loop.simps py_slice_def slice_bound_def byte_tokens_def fox_page_def)
  have v: "first_tokens 5 (snd (window_loop (byte_tokens (content fox_page)) 25 (25 - 5) 0 0 ! Suc 0)) =
       byte_tokens ''jumps''"
    by (simp add: window_loop.simps py_slice_def slice_bound_def byte_tokens_def fox_page_def
        first_tokens_def)
  show ?thesis
    using h v overlap_coverage [where chunk_overlap = 5 and chunk_size = 25 and k = 0
        and encode = byte_tokens and decode = byte_text and document = fox_page, OF _ _ refl]
    by simp
qed

lemma py_slice_length:
  "0 \<le> lo \<Longrightarrow> lo \<le> hi \<Longrightarrow> hi \<le> int (length xs) \<Longrightarrow> length (py_slice xs lo hi) = nat (hi - lo)"
  by (auto simp: py_slice_def slice_bound_def min_def Let_def nat_diff_distrib)

lemma py_slice_clip:
  "0 \<le> lo \<Longrightarrow> int (length xs) \<le> hi \<Longrightarrow> py_slice xs lo hi = py_slice xs lo (int (length xs))"
  by (simp add: py_slice_def slice_bound_def min_def Let_def)

text \<open>
  C2 (sliding-window scenario). A page of exactly 1000 tokens, chunked with
  \<open>chunk_size = 512\<close> and \<open>chunk_overlap = 50\<close>, gives exactly three chunks, whose windows are
  the token ranges \<open>[0,512)\<close>, \<open>[462,974)\<close> and \<open>[924,1000)\<close>, of 512, 512 and 76 tokens:
  the last window is clipped, not padded, and there is no fourth one.
\<close>

theorem sliding_window_scenario:
  assumes "length (encode (content document)) = 1000"
  shows "chunk_documents encode decode [document] 512 50 =
           Inr (map (make_chunk decode document)
             [(0, py_slice (encode (content document)) 0 512),
              (1, py_slice (encode (content document)) 462 974),
              (2, py_slice (encode (content document)) 924 1000)])
       \<and> map length [py_slice (encode (content document)) 0 512,
              py_slice (encode (content document)) 462 974,
              py_slice (encode (content document)) 924 1000] = [512, 512, 76]"
proof -
  let ?t = "encode (content document)"
  have l1: "length (py_slice ?t 0 512) = 512" and l2: "length (py_slice ?t 462 974) = 512"
    and l3: "length (py_slice ?t 924 1000) = 76"
    using assms by (simp_all add: py_slice_length)
  have c3: "py_slice ?t 924 1436 = py_slice ?t 924 1000"
    using py_slice_clip [of 924 ?t 1436] assms by simp
  have w3: "window_loop ?t 512 462 924 2 = [(2, py_slice ?t 924 1000)]"
    using assms l3 by (subst window_loop.simps) (simp add: c3 Let_def)
  have w2: "window_loop ?t 512 462 462 1 = (1, py_slice ?t 462 974) # window_loop ?t 512 462 924 2"
    using assms l2 by (subst window_loop.simps) (simp add: Let_def)
  have w1: "window_loop ?t 512 462 0 0 = (0, py_slice ?t 0 512) # window_loop ?t 512 462 462 1"
    using assms l1 by (subst window_loop.simps) (simp add: Let_def)
  have "page_windows 512 50 ?t = Inr (window_loop ?t 512 462 0 0)"
    using page_windows_loop [of 50 512 ?t] by simp
  then show ?thesis
    by (simp add: chunk_documents_single page_chunks_def w1 w2 w3 l1 l2 l3)
qed

theorem sliding_window_scenario_witness:
  "length (byte_tokens (content long_page)) = 1000
   \<and> chunk_documents byte_tokens byte_text [long_page] 512 50 =
           Inr (map (make_chunk byte_text long_page)
             [(0, py_slice (byte_tokens (content long_page)) 0 512),
              (1, py_slice (byte_tokens (content long_page)) 462 974),
              (2, py_slice (byte_tokens (content long_page)) 924 1000)])"
proof -
  have h: "length (byte_tokens (content long_page)) = 1000"
    by (simp add: byte_tokens_def long_page_def)
  show ?thesis
    using h sliding_window_scenario
      [where encode = byte_tokens and document = long_page and decode = byte_text]
    by simp
qed

lemma chunk_indices_append: "chunk_indices (xs @ ys) = chunk_indices xs @ chunk_indices ys"
  by (simp add: chunk_indices_def)

lemma page_chunk_indices:
  assumes "page_windows chunk_size chunk_overlap (encode (content document)) = Inr ws"
  shows "chunk_indices (map (make_chunk decode document) ws) =
           map (\<lambda>k. Some (PInt (int k))) [0..<length ws]
       \<and> (\<forall>iw \<in> set ws. 20 \<le> length (snd iw))"
proof -
  have "map fst ws = map int [0..<length ws]"
    using page_windows_cases [OF assms]
      window_loop_indices [of "encode (content document)" chunk_size "chunk_size - chunk_overlap" 0 0]
    by auto
  then have "map (\<lambda>i. Some (PInt i)) (map fst ws) =
      map (\<lambda>i. Some (PInt i)) (map int [0..<length ws])"
    by simp
  then have b: "chunk_indices (map (make_chunk decode document) ws) =
           map (\<lambda>k. Some (PInt (int k))) [0..<length ws]"
    by (simp add: chunk_indices_def make_chunk_def comp_def)
  have c: "\<forall>iw \<in> set ws. 20 \<le> length (snd iw)"
    using page_windows_cases [OF assms] window_loop_min_tokens by fastforce
  show ?thesis using b c by blast
qed

lemma chunk_documents_pages:
  "\<forall>d \<in> set documents. page_windows chunk_size chunk_overlap (encode (content d)) = Inr (W d) \<Longrightarrow>
   chunk_documents encode decode documents chunk_size chunk_overlap =
     Inr (concat (map (\<lambda>d. map (make_chunk decode d) (W d)) documents))"
  by (induction documents) (simp_all add: page_chunks_def)

lemma chunk_indices_pages:
  "\<forall>d \<in> set documents. page_windows chunk_size chunk_overlap (encode (content d)) = Inr (W d) \<Longrightarrow>
   chunk_indices (concat (map (\<lambda>d. map (make_chunk decode d) (W d)) documents)) =
     concat (map (\<lambda>d. map (\<lambda>k. Some (PInt (int k))) [0..<length (W d)]) documents)"
proof (induction documents)
  case Nil
  then show ?case by (simp add: chunk_indices_def)
next
  case (Cons d ds)
  have pw: "page_windows chunk_size chunk_overlap (encode (content d)) = Inr (W d)"
    using Cons.prems by simp
  from page_chunk_indices [where encode = encode and document = d and decode = decode
      and chunk_size = chunk_size and chunk_overlap = chunk_overlap and ws = "W d", OF pw]
  have "chunk_indices (map (make_chunk decode d) (W d)) =
      map (\<lambda>k. Some (PInt (int k))) [0..<length (W d)]" by blast
  moreover have "chunk_indices (concat (map (\<lambda>d. map (make_chunk decode d) (W d)) ds)) =
     concat (map (\<lambda>d. map (\<lambda>k. Some (PInt (int k))) [0..<length (W d)]) ds)"
    using Cons.IH Cons.prems by simp
  ultimately show ?case by (simp add: chunk_indices_append)
qed

text \<open>
  C7 (minimum-content threshold and \<open>chunk_index\<close>). For every list of pages and all
  parameters, if every page is chunked without error, page \<open>d\<close> into the windows \<open>W d\<close>,
  then \<open>chunk_documents\<close> returns the chunks of the pages in order, the \<open>chunk_index\<close>
  values start again at 0 on every page and run \<open>0, 1, ..., length (W d) - 1\<close> within it,
  and every emitted window has at least 20 tokens.
\<close>

theorem chunk_index_assignment:
  assumes "\<forall>d \<in> set documents.
      page_windows chunk_size chunk_overlap (encode (content d)) = Inr (W d)"
  shows "chunk_documents encode decode documents chunk_size chunk_overlap =
           Inr (concat (map (\<lambda>d. map (make_chunk decode d) (W d)) documents))
       \<and> chunk_indices (concat (map (\<lambda>d. map (make_chunk decode d) (W d)) documents)) =
           concat (map (\<lambda>d. map (\<lambda>k. Some (PInt (int k))) [0..<length (W d)]) documents)
       \<and> (\<forall>d \<in> set documents. \<forall>iw \<in> set (W d). 20 \<le> length (snd iw))"
proof -
  have c: "\<forall>d \<in> set documents. \<forall>iw \<in> set (W d). 20 \<le> length (snd iw)"
  proof
    fix d assume "d \<in> set documents"
    then have pw: "page_windows chunk_size chunk_overlap (encode (content d)) = Inr (W d)"
      using assms by blast
    from page_chunk_indices [where encode = encode and document = d and decode = decode
        and chunk_size = chunk_size and chunk_overlap = chunk_overlap and ws = "W d", OF pw]
    show "\<forall>iw \<in> set (W d). 20 \<le> length (snd iw)" by blast
  qed
  show ?thesis
    using chunk_documents_pages [OF assms] chunk_indices_pages [OF assms] c by blast
qed


theorem chunk_index_assignment_witness:
  "page_windows 25 5 (byte_tokens (content fox_page)) = Inr (fox_jug_windows fox_page)
   \<and> page_windows 25 5 (byte_tokens (content jug_page)) = Inr (fox_jug_windows jug_page)
   \<and> chunk_documents byte_tokens byte_text [fox_page, jug_page] 25 5 =
       Inr [make_chunk byte_text fox_page (0, byte_tokens ''the quick brown fox jumps''),
            make_chunk byte_text fox_page (1, byte_tokens ''jumps over the lazy dog, ''),
            make_chunk byte_text jug_page (0, byte_tokens ''pack my box with five doz'')]
   \<and> chunk_indices
        [make_chunk byte_text fox_page (0, byte_tokens ''the quick brown fox jumps''),
         make_chunk byte_text fox_page (1, byte_tokens ''jumps over the lazy dog, ''),
         make_chunk byte_text jug_page (0, byte_tokens ''pack my box with five doz'')] =
       [Some (PInt 0), Some (PInt 1), Some (PInt 0)]
   \<and> length (byte_tokens ''pack my box with five doz'') = 25
   \<and> length (py_slice (byte_tokens (content jug_page)) 20 45) = 19"
proof -
  have f: "page_windows 25 5 (byte_tokens (content fox_page)) = Inr (fox_jug_windows fox_page)"
    by (simp add: page_windows_def window_loop.simps py_slice_def slice_bound_def
        byte_tokens_def fox_page_def fox_jug_windows_def)
  have j: "page_windows 25 5 (byte_tokens (content jug_page)) = Inr (fox_jug_windows jug_page)"
    by (simp add: page_windows_def window_loop.simps py_slice_def slice_bound_def
        byte_tokens_def jug_page_def fox_jug_windows_def)
  have h: "\<forall>d \<in> set [fox_page, jug_page].
      page_windows 25 5 (byte_tokens (content d)) = Inr (fox_jug_windows d)"
    using f j by simp
  note t = chunk_index_assignment [where encode = byte_tokens and decode = byte_text
      and chunk_size = 25 and chunk_overlap = 5 and W = fox_jug_windows, OF h]
  have w: "fox_jug_windows fox_page =
      [(0, byte_tokens ''the quick brown fox jumps''), (1, byte_tokens ''jumps over the lazy dog, '')]"
    "fox_jug_windows jug_page = [(0, byte_tokens ''pack my box with five doz'')]"
    by (simp_all add: fox_jug_windows_def fox_page_def jug_page_def)
  have a: "chunk_documents byte_tokens byte_text [fox_page, jug_page] 25 5 =
       Inr [make_chunk byte_text fox_page (0, byte_tokens ''the quick brown fox jumps''),
            make_chunk byte_text fox_page (1, byte_tokens ''jumps over the lazy dog, ''),
            make_chunk byte_text jug_page (0, byte_tokens ''pack my box with five doz'')]"
    using t [THEN conjunct1] by (simp add: w)
  have b: "chunk_indices
        [make_chunk byte_text fox_page (0, byte_tokens ''the quick brown fox jumps''),
         make_chunk byte_text fox_page (1, byte_tokens ''jumps over the lazy dog, ''),
         make_chunk byte_text jug_page (0, byte_tokens ''pack my box with five doz'')] =
       [Some (PInt 0), Some (PInt 1), Some (PInt 0)]"
    using t [THEN conjunct2, THEN conjunct1] by (simp add: w upt_rec)
  have c: "length (byte_tokens ''pack my box with five doz'') = 25"
    "length (py_slice (byte_tokens (content jug_page)) 20 45) = 19"
    by (simp_all add: byte_tokens_def jug_page_def py_slice_def slice_bound_def)
  show ?thesis using f j a b c by blast
qed

section \<open>Properties of the parser, the vector store and the chat service\<close>

lemma length_hex_string: "length (hex_string bs) = 2 * length bs"
  by (induction bs) (simp_all add: hex_string_def hex_byte_def)

lemma length_sha256: "length (sha256 m) = 32"
  by (simp add: sha256_def word_bytes_def split: prod.splits)

lemma length_sha256_hexdigest: "length (sha256_hexdigest m) = 64"
  by (simp add: sha256_hexdigest_def length_hex_string length_sha256)

lemma sha256_hexdigest_not_Nil: "sha256_hexdigest m \<noteq> []"
  using length_sha256_hexdigest [of m] by auto

lemma parse_pages_hash:
  "d \<in> set (parse_pages strip pdf_filename i pages) \<Longrightarrow>
   content_hash d = sha256_hexdigest (encode_utf8 (content d))"
  by (induction strip pdf_filename i pages rule: parse_pages.induct)
     (auto simp: Let_def new_Document_def post_init_def split: if_splits)

text \<open>
  C9 (content-hash invariant), as stated: for every \<open>Document\<close>, \<open>content_hash\<close> is the
  SHA-256 hex digest of the UTF-8 encoding of \<open>content\<close>. It fails for a document built
  with a hash of the caller's own: \<open>Document("a", 1, "f.pdf", "xyz")\<close> keeps \<open>"xyz"\<close>.
\<close>

theorem content_hash_given_counterexample:
  "content_hash (new_Document ''a'' 1 ''f.pdf'' ''xyz'') \<noteq>
   sha256_hexdigest (encode_utf8 (content (new_Document ''a'' 1 ''f.pdf'' ''xyz'')))"
proof -
  have "content_hash (new_Document ''a'' 1 ''f.pdf'' ''xyz'') = ''xyz''"
    by (simp add: new_Document_def post_init_def)
  moreover have "length ''xyz'' \<noteq> length (sha256_hexdigest (encode_utf8
      (content (new_Document ''a'' 1 ''f.pdf'' ''xyz''))))"
    by (simp add: length_sha256_hexdigest)
  ultimately show ?thesis by metis
qed

text \<open>
  C9, amended. A \<open>Document\<close> built without a \<open>content_hash\<close> (the empty default) gets the
  SHA-256 hex digest of the UTF-8 encoding of its content, and the constructor never
  changes the content; a non-empty \<open>content_hash\<close> given by the caller is kept as it is.
  Every document that \<open>parse_pdf\<close> returns carries the digest of its content.
\<close>

theorem content_hash_computed:
  "content_hash (new_Document c p s []) = sha256_hexdigest (encode_utf8 c)
   \<and> content (new_Document c p s h) = c
   \<and> (h \<noteq> [] \<longrightarrow> content_hash (new_Document c p s h) = h)
   \<and> (\<forall>d \<in> set (parse_pdf strip pdf_filename pages).
         content_hash d = sha256_hexdigest (encode_utf8 (content d)))"
  by (auto simp: new_Document_def post_init_def parse_pdf_def parse_pages_hash)

theorem content_hash_computed_witness:
  "content_hash (new_Document ''a'' 1 ''f.pdf'' ''xyz'') = ''xyz''
   \<and> map content_hash (parse_pdf (\<lambda>s. s) ''f.pdf'' [[''text'' \<mapsto> ''hello'']]) =
       [sha256_hexdigest (encode_utf8 ''hello'')]"
  using content_hash_computed [of "''hello''" 1 "''f.pdf''" "''xyz''" "\<lambda>s. s" "''f.pdf''"
      "[[''text'' \<mapsto> ''hello'']]"]
  by (simp add: parse_pdf_def new_Document_def post_init_def Let_def)

text \<open>
  C8 (health probe), as stated: before the pipeline is constructed, \<open>GET /health\<close> answers
  with a 503. It does not: with the global \<open>pipeline\<close> still \<open>None\<close> the handler returns
  the body \<open>{"status": "healthy"}\<close>.
\<close>

theorem health_before_construction_counterexample:
  "health (None :: (unit, unit) RAGPipeline option) = Response [''status'' \<mapsto> PStr ''healthy'']"
  by (simp add: health_def)

text \<open>
  C8, amended. \<open>GET /health\<close> returns \<open>{"status": "healthy"}\<close> whatever the state of the
  pipeline, constructed or not; the 503 answer before construction is given by
  \<open>POST /chat\<close>.
\<close>

theorem health_unconditional:
  "health pipeline = Response [''status'' \<mapsto> PStr ''healthy'']
   \<and> chat None request =
       HTTPException 503 ''RAG pipeline not initialized. The server may still be starting up.''"
  by (simp add: health_def chat_def)

text \<open>
  C5 (upsert length validation). A call of \<open>upsert_chunks\<close> with
  \<open>len(chunks) \<noteq> len(embeddings)\<close> fails with the \<open>ValueError\<close> of the length check, for
  every behaviour of the store; no upsert request has been issued and no point of the
  collection has changed.
\<close>

theorem upsert_length_validation:
  assumes "length chunks \<noteq> length embeddings"
  shows "upsert_chunks accepts chunks embeddings q =
           (Some (ValueError (''Mismatch: '' @ str_int (int (length chunks)) @ '' chunks but '' @
              str_int (int (length embeddings)) @ '' embeddings'')), q)
       \<and> upsert_requests (snd (upsert_chunks accepts chunks embeddings q)) = upsert_requests q
       \<and> points (snd (upsert_chunks accepts chunks embeddings q)) = points q"
  using assms by (simp add: upsert_chunks_def)

theorem upsert_length_validation_witness:
  "length [plain_chunk ''ab'' 0, plain_chunk ''ab'' 1] \<noteq> length [7::nat]
   \<and> upsert_chunks (\<lambda>b. True) [plain_chunk ''ab'' 0, plain_chunk ''ab'' 1] [7] empty_store =
       (Some (ValueError ''Mismatch: 2 chunks but 1 embeddings''), empty_store)"
proof -
  have h: "length [plain_chunk ''ab'' 0, plain_chunk ''ab'' 1] \<noteq> length [7::nat]" by simp
  show ?thesis
    using h upsert_length_validation [OF h, of "\<lambda>b. True" empty_store]
    by (simp add: str_int_def str_nat.simps digit_char_def)
qed

lemma history_messages_map:
  "history_messages h =
     map (\<lambda>msg. new_message (py_get msg ''role'' (PStr ''user''))
                            (py_get msg ''content'' (PStr []))) h"
  by (induction h) simp_all

lemma build_prompt_Some:
  "build_prompt q cs (Some h) =
     new_message (PStr ''system'') (PStr system_prompt) # history_messages h @
     [new_message (PStr ''user'')
        (PStr (user_message (py_join [newline, newline] (context_parts 1 cs)) q))]"
  by (simp add: build_prompt_def Let_def)

lemma build_prompt_None:
  "build_prompt q cs None =
     [new_message (PStr ''system'') (PStr system_prompt),
      new_message (PStr ''user'')
        (PStr (user_message (py_join [newline, newline] (context_parts 1 cs)) q))]"
  by (simp add: build_prompt_def Let_def)

text \<open>
  C10 (malformed history entries). For every history and every position \<open>k\<close> in it,
  \<open>build_prompt\<close> returns \<open>len(history) + 2\<close> messages, and the message at position
  \<open>k + 1\<close> is built from entry \<open>k\<close>: its role is the entry's \<open>role\<close>, or \<open>"user"\<close> if the key
  is missing, and its content is the entry's \<open>content\<close>, or the empty string if the key is
  missing.
\<close>

theorem history_defaults:
  assumes "k < length h"
  shows "length (build_prompt q cs (Some h)) = length h + 2
       \<and> build_prompt q cs (Some h) ! Suc k =
           new_message (py_get (h ! k) ''role'' (PStr ''user''))
                       (py_get (h ! k) ''content'' (PStr []))
       \<and> ((h ! k) ''role'' = None \<longrightarrow>
            (build_prompt q cs (Some h) ! Suc k) ''role'' = Some (PStr ''user''))
       \<and> ((h ! k) ''content'' = None \<longrightarrow>
            (build_prompt q cs (Some h) ! Suc k) ''content'' = Some (PStr []))"
proof -
  have n: "build_prompt q cs (Some h) ! Suc k =
           new_message (py_get (h ! k) ''role'' (PStr ''user''))
                       (py_get (h ! k) ''content'' (PStr []))"
    using assms by (simp add: build_prompt_Some history_messages_map nth_append)
  show ?thesis
    unfolding n by (simp add: build_prompt_Some history_messages_map new_message_def py_get_def)
qed

theorem history_defaults_witness:
  "(0::nat) < length [Map.empty, [''role'' \<mapsto> PStr ''assistant'', ''content'' \<mapsto> PStr ''Hi'']]
   \<and> build_prompt ''Why?'' ([] :: unit ScoredPoint list)
        (Some [Map.empty, [''role'' \<mapsto> PStr ''assistant'', ''content'' \<mapsto> PStr ''Hi'']]) ! Suc 0 =
       new_message (PStr ''user'') (PStr [])
   \<and> length (build_prompt ''Why?'' ([] :: unit ScoredPoint list)
        (Some [Map.empty, [''role'' \<mapsto> PStr ''assistant'', ''content'' \<mapsto> PStr ''Hi'']])) = 4"
  using history_defaults [of 0 "[Map.empty, [''role'' \<mapsto> PStr ''assistant'', ''content'' \<mapsto> PStr ''Hi'']]"
      "''Why?''" "[] :: unit ScoredPoint list"]
  by (simp add: py_get_def)

lemma context_parts_map:
  "context_parts i cs =
     map (\<lambda>k. ''['' @ str_int (i + int k) @ ''] (Page '' @
            py_str (py_get (result_payload (cs ! k)) ''page_number'' (PStr ''unknown'')) @
            ''): '' @ py_str (py_get (result_payload (cs ! k)) ''text'' (PStr [])))
         [0..<length cs]"
proof (induction cs arbitrary: i)
  case Nil
  then show ?case by simp
next
  case (Cons c cs)
  show ?case
    by (simp add: Cons.IH Let_def map_upt_Suc add.assoc del: upt_Suc)
qed

lemma py_join_Cons: "py_join sep (p # ps) = p @ concat (map (\<lambda>q. sep @ q) ps)"
  by (induction ps arbitrary: p) simp_all

lemma py_join_upt:
  "py_join sep (map f [0..<n]) =
     (if n = 0 then [] else f 0 @ concat (map (\<lambda>k. sep @ f k) [1..<n]))"
proof (cases "n = 0")
  case True
  then show ?thesis by simp
next
  case False
  then have "[0..<n] = 0 # [1..<n]" by (simp add: upt_conv_Cons)
  then have "map f [0..<n] = f 0 # map f [1..<n]" by simp
  then show ?thesis using False by (simp add: py_join_Cons comp_def)
qed

lemma build_prompt_closed:
  "build_prompt qn cs hist =
     new_message (PStr ''system'') (PStr system_prompt)
     # map (\<lambda>msg. new_message (py_get msg ''role'' (PStr ''user''))
                              (py_get msg ''content'' (PStr [])))
           (case hist of None \<Rightarrow> [] | Some h \<Rightarrow> h)
     @ [new_message (PStr ''user'') (PStr (
          ''Context:'' @ [newline] @
          py_join [newline, newline]
            (map (\<lambda>k. ''['' @ str_int (1 + int k) @ ''] (Page '' @
                   py_str (py_get (result_payload (cs ! k)) ''page_number'' (PStr ''unknown'')) @
                   ''): '' @ py_str (py_get (result_payload (cs ! k)) ''text'' (PStr [])))
               [0..<length cs]) @
          [newline, newline] @ ''Question: '' @ qn @ [newline, newline] @
          ''Answer based on the context above. Cite page numbers.''))]"
  by (cases hist)
     (simp_all add: build_prompt_None build_prompt_Some history_messages_map
        context_parts_map [of 1 cs] user_message_def)

text \<open>
  C6 (prompt assembly). \<open>build_prompt\<close> returns, in this order: the system message with
  the fixed instruction (answer from the provided context, always cite page numbers, say so
  when the context is insufficient, make nothing up); one message per history entry; one
  user message made of \<open>Context:\<close>, the results numbered from 1 and annotated with their
  page, joined by blank lines, then the question and the citation reminder. That makes
  \<open>1 + len(history) + 1\<close> messages. With no result the context block is empty, and if the
  embedding server answers and the search returns nothing, \<open>query\<close> returns what the
  generation server returns on that prompt, with an empty source list.
\<close>

theorem prompt_assembly:
  "build_prompt qn cs hist =
     (let entry = (\<lambda>k. ''['' @ str_int (int k + 1) @ ''] (Page '' @
             py_str (case result_payload (cs ! k) ''page_number'' of
                       None \<Rightarrow> PStr ''unknown'' | Some v \<Rightarrow> v) @
             ''): '' @
             py_str (case result_payload (cs ! k) ''text'' of None \<Rightarrow> PStr [] | Some v \<Rightarrow> v));
          context_text =
            (if cs = [] then []
             else entry 0 @ concat (map (\<lambda>k. [CHR 0x0A, CHR 0x0A] @ entry k) [1..<length cs]))
      in [''role'' \<mapsto> PStr ''system'',
          ''content'' \<mapsto> PStr (
            ''You are a helpful assistant that answers questions based on the '' @
            ''provided context. Always cite which page numbers your answer comes '' @
            ''from. If the context doesn'' @ [CHR 0x27] @
            ''t contain enough information to answer '' @
            ''the question, say so honestly. Do not make up information that is '' @
            ''not supported by the context.'')]
         # map (\<lambda>msg. [''role'' \<mapsto> (case msg ''role'' of None \<Rightarrow> PStr ''user'' | Some r \<Rightarrow> r),
                         ''content'' \<mapsto> (case msg ''content'' of None \<Rightarrow> PStr [] | Some c \<Rightarrow> c)])
               (case hist of None \<Rightarrow> [] | Some h \<Rightarrow> h)
         @ [[''role'' \<mapsto> PStr ''user'',
             ''content'' \<mapsto> PStr (
               ''Context:'' @ [CHR 0x0A] @ context_text @ [CHR 0x0A, CHR 0x0A] @
               ''Question: '' @ qn @ [CHR 0x0A, CHR 0x0A] @
               ''Answer based on the context above. Cite page numbers.'')]])
   \<and> length (build_prompt qn cs hist) =
       1 + length (case hist of None \<Rightarrow> [] | Some h \<Rightarrow> h) + 1
   \<and> last (build_prompt qn ([] :: 's ScoredPoint list) hist) =
       [''role'' \<mapsto> PStr ''user'',
        ''content'' \<mapsto> PStr (
          ''Context:'' @ [CHR 0x0A, CHR 0x0A, CHR 0x0A] @ ''Question: '' @ qn @
          [CHR 0x0A, CHR 0x0A] @ ''Answer based on the context above. Cite page numbers.'')]
   \<and> (post_embed (p :: ('v, 's) RAGPipeline) [''search_query: '' @ qn] = Inr (emb # embs)
        \<and> query_points p emb (rag_top_k p) = Inr []
        \<longrightarrow> query p qn hist =
             (case chat_completions p (build_prompt qn ([] :: 's ScoredPoint list) hist) of
                Inl e \<Rightarrow> Inl e
              | Inr a \<Rightarrow> Inr (a, [])))"
proof -
  have a: "build_prompt qn cs hist =
     (let entry = (\<lambda>k. ''['' @ str_int (int k + 1) @ ''] (Page '' @
             py_str (case result_payload (cs ! k) ''page_number'' of
                       None \<Rightarrow> PStr ''unknown'' | Some v \<Rightarrow> v) @
             ''): '' @
             py_str (case result_payload (cs ! k) ''text'' of None \<Rightarrow> PStr [] | Some v \<Rightarrow> v));
          context_text =
            (if cs = [] then []
             else entry 0 @ concat (map (\<lambda>k. [CHR 0x0A, CHR 0x0A] @ entry k) [1..<length cs]))
      in [''role'' \<mapsto> PStr ''system'',
          ''content'' \<mapsto> PStr (
            ''You are a helpful assistant that answers questions based on the '' @
            ''provided context. Always cite which page numbers your answer comes '' @
            ''from. If the context doesn'' @ [CHR 0x27] @
            ''t contain enough information to answer '' @
            ''the question, say so honestly. Do not make up information that is '' @
            ''not supported by the context.'')]
         # map (\<lambda>msg. [''role'' \<mapsto> (case msg ''role'' of None \<Rightarrow> PStr ''user'' | Some r \<Rightarrow> r),
                         ''content'' \<mapsto> (case msg ''content'' of None \<Rightarrow> PStr [] | Some c \<Rightarrow> c)])
               (case hist of None \<Rightarrow> [] | Some h \<Rightarrow> h)
         @ [[''role'' \<mapsto> PStr ''user'',
             ''content'' \<mapsto> PStr (
               ''Context:'' @ [CHR 0x0A] @ context_text @ [CHR 0x0A, CHR 0x0A] @
               ''Question: '' @ qn @ [CHR 0x0A, CHR 0x0A] @
               ''Answer based on the context above. Cite page numbers.'')]])"
    unfolding build_prompt_closed py_join_upt
    by (simp add: Let_def new_message_def py_get_def system_prompt_def newline_def add.commute)
  have b: "length (build_prompt qn cs hist) =
       1 + length (case hist of None \<Rightarrow> [] | Some h \<Rightarrow> h) + 1"
    by (simp add: build_prompt_closed)
  have c: "last (build_prompt qn ([] :: 's ScoredPoint list) hist) =
       [''role'' \<mapsto> PStr ''user'',
        ''content'' \<mapsto> PStr (
          ''Context:'' @ [CHR 0x0A, CHR 0x0A, CHR 0x0A] @ ''Question: '' @ qn @
          [CHR 0x0A, CHR 0x0A] @ ''Answer based on the context above. Cite page numbers.'')]"
    by (simp add: build_prompt_closed new_message_def newline_def)
  have d: "post_embed (p :: ('v, 's) RAGPipeline) [''search_query: '' @ qn] = Inr (emb # embs)
        \<and> query_points p emb (rag_top_k p) = Inr []
        \<longrightarrow> query p qn hist =
             (case chat_completions p (build_prompt qn ([] :: 's ScoredPoint list) hist) of
                Inl e \<Rightarrow> Inl e
              | Inr a \<Rightarrow> Inr (a, []))"
    by (simp add: query_def embed_question_def search_qdrant_def generate_answer_def
        split: sum.splits)
  show ?thesis using a b c d by blast
qed


theorem prompt_assembly_witness:
  "build_prompt ''Why?''
     [\<lparr>result_payload = [''page_number'' \<mapsto> PInt 5, ''text'' \<mapsto> PStr ''Refunds take 30 days''],
       score = ()\<rparr>,
      \<lparr>result_payload = Map.empty, score = ()\<rparr>]
     (Some [[''role'' \<mapsto> PStr ''assistant'']]) =
   [[''role'' \<mapsto> PStr ''system'',
     ''content'' \<mapsto> PStr (
       ''You are a helpful assistant that answers questions based on the '' @
       ''provided context. Always cite which page numbers your answer comes '' @
       ''from. If the context doesn'' @ [CHR 0x27] @
       ''t contain enough information to answer '' @
       ''the question, say so honestly. Do not make up information that is '' @
       ''not supported by the context.'')],
    [''role'' \<mapsto> PStr ''assistant'', ''content'' \<mapsto> PStr []],
    [''role'' \<mapsto> PStr ''user'',
     ''content'' \<mapsto> PStr (
       ''Context:'' @ [CHR 0x0A] @ ''[1] (Page 5): Refunds take 30 days'' @ [CHR 0x0A, CHR 0x0A] @
       ''[2] (Page unknown): '' @ [CHR 0x0A, CHR 0x0A] @ ''Question: Why?'' @
       [CHR 0x0A, CHR 0x0A] @ ''Answer based on the context above. Cite page numbers.'')]]
   \<and> post_embed idle_pipeline [''search_query: '' @ ''Why?''] = Inr [18]
   \<and> query_points idle_pipeline 18 (rag_top_k idle_pipeline) = Inr []
   \<and> query idle_pipeline ''Why?'' None = Inr (''The context does not say.'', [])"
proof -
  have s: "str_int 1 = ''1''" "str_int 2 = ''2''"
    by (simp_all add: str_int_def str_nat.simps digit_char_def)
  have a: "build_prompt ''Why?''
     [\<lparr>result_payload = [''page_number'' \<mapsto> PInt 5, ''text'' \<mapsto> PStr ''Refunds take 30 days''],
       score = ()\<rparr>,
      \<lparr>result_payload = Map.empty, score = ()\<rparr>]
     (Some [[''role'' \<mapsto> PStr ''assistant'']]) =
   [[''role'' \<mapsto> PStr ''system'',
     ''content'' \<mapsto> PStr (
       ''You are a helpful assistant that answers questions based on the '' @
       ''provided context. Always cite which page numbers your answer comes '' @
       ''from. If the context doesn'' @ [CHR 0x27] @
       ''t contain enough information to answer '' @
       ''the question, say so honestly. Do not make up information that is '' @
       ''not supported by the context.'')],
    [''role'' \<mapsto> PStr ''assistant'', ''content'' \<mapsto> PStr []],
    [''role'' \<mapsto> PStr ''user'',
     ''content'' \<mapsto> PStr (
       ''Context:'' @ [CHR 0x0A] @ ''[1] (Page 5): Refunds take 30 days'' @ [CHR 0x0A, CHR 0x0A] @
       ''[2] (Page unknown): '' @ [CHR 0x0A, CHR 0x0A] @ ''Question: Why?'' @
       [CHR 0x0A, CHR 0x0A] @ ''Answer based on the context above. Cite page numbers.'')]]"
    unfolding prompt_assembly [THEN conjunct1]
    by (simp add: Let_def s upt_rec str_int_def str_nat.simps digit_char_def)
  have h: "post_embed idle_pipeline [''search_query: '' @ ''Why?''] = Inr [18]
      \<and> query_points idle_pipeline 18 (rag_top_k idle_pipeline) = Inr []"
    by (simp add: idle_pipeline_def)
  have g: "chat_completions idle_pipeline (build_prompt ''Why?'' ([] :: unit ScoredPoint list) None) =
      Inr ''The context does not say.''"
    by (simp add: idle_pipeline_def)
  have q: "query idle_pipeline ''Why?'' None = Inr (''The context does not say.'', [])"
    using prompt_assembly [where p = idle_pipeline and qn = "''Why?''" and hist = None
        and emb = 18 and embs = "[]", THEN conjunct2, THEN conjunct2, THEN conjunct2] h g
    by simp
  show ?thesis using a h q by blast
qed

section \<open>Properties of the embedding client and of the point identifiers\<close>

lemma int_div_small: "0 < B \<Longrightarrow> x < B \<Longrightarrow> (x::int) div B \<le> 0"
  by (metis div_pos_pos_trivial div_nonpos_pos_le0 linorder_le_cases not_le)

lemma int_div_step: "0 < B \<Longrightarrow> (x + B) div B = 1 + (x::int) div B"
  using div_add_self2 [of B x] by simp

lemma embed_batches_ok:
  "0 < B \<Longrightarrow> \<forall>b. \<exists>vs. post b = Inr vs \<and> list_all2 R b vs \<Longrightarrow> 0 \<le> i \<Longrightarrow>
    \<exists>vs bs. embed_batches post B xs i acc reqs = (Inr (acc @ vs), reqs @ bs)
      \<and> list_all2 R (drop (nat i) xs) vs
      \<and> concat bs = drop (nat i) xs
      \<and> (\<forall>b \<in> set bs. b \<noteq> [] \<and> int (length b) \<le> B)
      \<and> length bs = nat ((int (length xs) - i + B - 1) div B)"
proof (induction post B xs i acc reqs rule: embed_batches.induct)
  case (1 post B xs i acc reqs)
  note B = \<open>0 < B\<close> and i0 = \<open>0 \<le> i\<close>
    and srv = \<open>\<forall>b. \<exists>vs. post b = Inr vs \<and> list_all2 R b vs\<close>
  show ?case
  proof (cases "int (length xs) \<le> i")
    case True
    then have "(int (length xs) - i + B - 1) div B \<le> 0"
      using B by (intro int_div_small) simp_all
    then show ?thesis
      using True i0 by (subst embed_batches.simps) simp
  next
    case False
    let ?batch = "py_slice xs i (i + B)"
    have batch: "?batch = take (nat B) (drop (nat i) xs)"
      using i0 B by (simp add: py_slice_window)
    from srv obtain vs0 where vs0: "post ?batch = Inr vs0" "list_all2 R ?batch vs0"
      by blast
    have inr: "\<not> (B \<le> 0 \<or> int (length xs) \<le> i)" using B False by simp
    have "0 \<le> i + B" using i0 B by simp
    from "1.IH" [OF inr refl vs0(1) B srv this]
    obtain vs bs where ih:
      "embed_batches post B xs (i + B) (acc @ vs0) (reqs @ [?batch]) =
         (Inr ((acc @ vs0) @ vs), (reqs @ [?batch]) @ bs)"
      "list_all2 R (drop (nat (i + B)) xs) vs"
      "concat bs = drop (nat (i + B)) xs"
      "\<forall>b \<in> set bs. b \<noteq> [] \<and> int (length b) \<le> B"
      "length bs = nat ((int (length xs) - (i + B) + B - 1) div B)"
      by blast
    have unf: "embed_batches post B xs i acc reqs =
        (Inr (acc @ (vs0 @ vs)), reqs @ (?batch # bs))"
      using inr vs0(1) ih(1) by (subst embed_batches.simps) (simp add: Let_def)
    have "nat (i + B) = nat B + nat i" using i0 B by simp
    then have "drop (nat (i + B)) xs = drop (nat B) (drop (nat i) xs)" by simp
    then have split: "drop (nat i) xs = ?batch @ drop (nat (i + B)) xs"
      unfolding batch by (simp only: append_take_drop_id)
    have r: "list_all2 R (drop (nat i) xs) (vs0 @ vs)"
      unfolding split using vs0(2) ih(2) by (rule list_all2_appendI)
    have c: "concat (?batch # bs) = drop (nat i) xs"
      using ih(3) split by simp
    have ne: "?batch \<noteq> []" and le: "int (length ?batch) \<le> B"
      using False i0 B by (simp_all add: batch)
    have "(int (length xs) - i + B - 1) div B = 1 + (int (length xs) - i - 1) div B"
      using int_div_step [OF B, of "int (length xs) - i - 1"] by (simp add: algebra_simps)
    moreover have "0 \<le> (int (length xs) - i - 1) div B"
      using B False by (simp add: pos_imp_zdiv_nonneg_iff)
    ultimately have n: "length (?batch # bs) = nat ((int (length xs) - i + B - 1) div B)"
      using ih(5) by (simp add: algebra_simps nat_add_distrib)
    show ?thesis
      using unf r c ne le ih(4) n by (intro exI [of _ "vs0 @ vs"] exI [of _ "?batch # bs"]) simp
  qed
qed

text \<open>
  C4 (embedding batch integrity). Let \<open>batch_size \<ge> 1\<close>, and let the server answer every
  request with one vector per input, in order (\<open>R\<close> relates a text to a vector the server may
  return for it). Then \<open>embed_texts\<close> returns a list of vectors that corresponds to the
  prefixed texts position by position, hence as many vectors as texts; the requests issued
  are, in order, a partition of the prefixed texts into non-empty batches of at most
  \<open>batch_size\<close> texts; there are \<open>(N + batch_size - 1) // batch_size\<close> of them; and for no
  text there is no request and the result is empty.
\<close>

theorem embed_batch_integrity:
  assumes "1 \<le> batch_size"
    and "\<forall>b. \<exists>vs. post b = Inr vs \<and> list_all2 R b vs"
  shows "(\<exists>vs. fst (embed_texts post batch_size texts prefix) = Inr vs
            \<and> list_all2 R (map (\<lambda>t. prefix @ t) texts) vs \<and> length vs = length texts)
       \<and> concat (snd (embed_texts post batch_size texts prefix)) = map (\<lambda>t. prefix @ t) texts
       \<and> (\<forall>b \<in> set (snd (embed_texts post batch_size texts prefix)).
              b \<noteq> [] \<and> int (length b) \<le> batch_size)
       \<and> int (length (snd (embed_texts post batch_size texts prefix))) =
           (int (length texts) + batch_size - 1) div batch_size
       \<and> (texts = [] \<longrightarrow> embed_texts post batch_size texts prefix = (Inr [], []))"
proof -
  let ?xs = "map (\<lambda>t. prefix @ t) texts"
  have B: "0 < batch_size" using assms(1) by simp
  from embed_batches_ok [OF B assms(2), of 0 ?xs "[]" "[]"]
  obtain vs bs where r:
    "embed_batches post batch_size ?xs 0 [] [] = (Inr vs, bs)"
    "list_all2 R ?xs vs" "concat bs = ?xs"
    "\<forall>b \<in> set bs. b \<noteq> [] \<and> int (length b) \<le> batch_size"
    "length bs = nat ((int (length ?xs) + batch_size - 1) div batch_size)"
    by auto
  have e: "embed_texts post batch_size texts prefix = (Inr vs, bs)"
    using B r(1) by (simp add: embed_texts_def)
  have l: "length vs = length texts"
    using list_all2_lengthD [OF r(2)] by simp
  have "0 \<le> (int (length texts) + batch_size - 1) div batch_size"
    using B by (simp add: pos_imp_zdiv_nonneg_iff)
  then have n: "int (length bs) = (int (length texts) + batch_size - 1) div batch_size"
    using r(5) by simp
  have z: "texts = [] \<longrightarrow> (vs = [] \<and> bs = [])"
    using r(2,3) r(4) by auto
  show ?thesis
    unfolding e using r(2,3,4) l n z by auto
qed

theorem embed_batch_integrity_witness:
  "(1::int) \<le> 2
   \<and> embed_texts (\<lambda>b. Inr (map length b)) 2 [''a'', ''bb'', ''ccc''] ''p: '' =
       (Inr [4, 5, 6], [[''p: a'', ''p: bb''], [''p: ccc'']])
   \<and> int (length [[''p: a'', ''p: bb''], [''p: ccc'']]) = (int (length [''a'', ''bb'', ''ccc'']) + 2 - 1) div 2"
proof -
  have h: "\<forall>b. \<exists>vs. (Inr (map length b) :: py_error + nat list) = Inr vs
      \<and> list_all2 (\<lambda>t v. v = length t) b vs"
    by (simp add: list_all2_conv_all_nth)
  have v: "embed_texts (\<lambda>b. Inr (map length b)) 2 [''a'', ''bb'', ''ccc''] ''p: '' =
       (Inr [4, 5, 6], [[''p: a'', ''p: bb''], [''p: ccc'']])"
    by (simp add: embed_texts_def embed_batches.simps py_slice_def slice_bound_def)
  show ?thesis
    using v embed_batch_integrity [where batch_size = 2 and post = "\<lambda>b. Inr (map length b)"
        and R = "\<lambda>t v. v = length t" and texts = "[''a'', ''bb'', ''ccc'']" and prefix = "''p: ''",
        OF _ h]
    by simp
qed











lemma hex_digit_is_hex: "n < 16 \<Longrightarrow> hex_digit n \<in> set ''0123456789abcdefABCDEF''"
proof -
  have "list_all (\<lambda>n. hex_digit n \<in> set ''0123456789abcdefABCDEF'') [0..<16]"
    by code_simp
  then show "n < 16 \<Longrightarrow> hex_digit n \<in> set ''0123456789abcdefABCDEF''"
    by (simp add: list_all_iff)
qed

lemma is_hex_hex_string: "is_hex (hex_string bs)"
proof -
  have "\<And>b :: byte. unat b div 16 < 16"
  proof -
    fix b :: byte
    have "unat b < 2 ^ LENGTH(8)" by (rule unsigned_less)
    then have "unat b < 256" by simp
    then show "unat b div 16 < 16" by simp
  qed
  then show ?thesis
    by (induction bs)
       (simp_all add: is_hex_def hex_string_def hex_byte_def hex_digit_is_hex del: set_simps)
qed



end
